theory Spec2Isabelle
  imports Complex_Main "HOL-Library.Sublist"
begin

section \<open>JavaScript primitives used by the front end\<close>

text \<open>
  Strings are \<^typ>\<open>string\<close>. The built-in string operations the source calls are
  modelled here: \<^verbatim>\<open>toLowerCase\<close>, \<^verbatim>\<open>split\<close> with a one-character separator
  (both call sites pass one: \<^verbatim>\<open>"/"\<close> and \<^verbatim>\<open>"\n"\<close>),
  \<^verbatim>\<open>Array.prototype.pop\<close>, \<^verbatim>\<open>replace\<close> with a string pattern (which replaces
  the first occurrence only; the replacement used has no \<^verbatim>\<open>$\<close>) and the operator
  \<^verbatim>\<open>||\<close> on a possibly undefined string.

  \<open>toLowerCase\<close> maps the ASCII letters \<^verbatim>\<open>A\<close> to \<^verbatim>\<open>Z\<close> (codes 65 to 90) to
  \<^verbatim>\<open>a\<close> to \<^verbatim>\<open>z\<close> and keeps every other character. JavaScript also lower-cases
  letters outside ASCII; like the model, it never produces an ASCII upper-case letter.
\<close>

datatype js_error = TypeError | SyntaxError

definition toLower_char :: "char \<Rightarrow> char" where
  "toLower_char c =
     (let n = (of_char c :: nat) in if 65 \<le> n \<and> n \<le> 90 then char_of (n + 32) else c)"

definition toLowerCase :: "string \<Rightarrow> string" where
  "toLowerCase s = map toLower_char s"

fun split_on :: "char \<Rightarrow> string \<Rightarrow> string list" where
  "split_on sep [] = [[]]"
| "split_on sep (c # cs) =
     (if c = sep then [] # split_on sep cs
      else (case split_on sep cs of [] \<Rightarrow> [[c]] | w # ws \<Rightarrow> (c # w) # ws))"

text \<open>\<^verbatim>\<open>pop()\<close>: the last element, \<^verbatim>\<open>undefined\<close> (here \<open>None\<close>) on an empty array.\<close>

definition pop :: "'a list \<Rightarrow> 'a option" where
  "pop xs = (case rev xs of [] \<Rightarrow> None | x # _ \<Rightarrow> Some x)"

fun replace_first :: "string \<Rightarrow> string \<Rightarrow> string \<Rightarrow> string" where
  "replace_first pat rep [] = (if pat = [] then rep else [])"
| "replace_first pat rep (c # cs) =
     (if prefix pat (c # cs) then rep @ drop (length pat) (c # cs)
      else c # replace_first pat rep cs)"

text \<open>\<^verbatim>\<open>v || d\<close> for \<open>v\<close> a string or \<^verbatim>\<open>undefined\<close>: the empty string is falsy.\<close>

definition or_default :: "string option \<Rightarrow> string \<Rightarrow> string" where
  "or_default v d = (case v of None \<Rightarrow> d | Some s \<Rightarrow> if s = [] then d else s)"

text \<open>
  A value of type \<^verbatim>\<open>unknown\<close>, as \<^verbatim>\<open>JSON.parse\<close> produces it, and
  \<^verbatim>\<open>undefined\<close>. A number is a rational here: the finite doubles are rationals, and
  only whether a number is zero matters below.
\<close>

datatype js_value =
    JUndefined
  | JNull
  | JBool bool
  | JNum rat
  | JStr string
  | JArr "js_value list"
  | JObj "(string \<times> js_value) list"

fun truthy :: "js_value \<Rightarrow> bool" where
  "truthy JUndefined = False"
| "truthy JNull = False"
| "truthy (JBool b) = b"
| "truthy (JNum n) = (n \<noteq> 0)"
| "truthy (JStr s) = (s \<noteq> [])"
| "truthy (JArr _) = True"
| "truthy (JObj _) = True"

section \<open>The stream message (feedbox.tsx, interface StreamMessage)\<close>

text \<open>
  Field names carry the name of their record, since HOL record fields are global:
  \<open>actor_login\<close> is \<^verbatim>\<open>actor.login\<close>, \<open>repo_name\<close> is \<^verbatim>\<open>repo.name\<close>,
  \<open>payload_created_at\<close> is \<^verbatim>\<open>payload.created_at\<close>. The helpers of lib/utils.ts read
  \<^verbatim>\<open>repo\<close> and \<^verbatim>\<open>actor\<close> with optional chaining, so both may be absent; a ping
  carries no payload, and \<^verbatim>\<open>analysis\<close> is optional in the interface.
\<close>

record github_actor =
  actor_id :: int
  actor_login :: string
  actor_display_login :: "string option"
  actor_avatar_url :: string
  actor_url :: string

record github_repo =
  repo_id :: int
  repo_name :: string
  repo_url :: string

record event_payload =
  payload_id :: string
  payload_type :: string
  payload_actor :: "github_actor option"
  payload_repo :: "github_repo option"
  payload_created_at :: string

record stream_analysis =
  root_cause :: "string list"
  impact :: "string list"
  next_steps :: "string list"

record stream_message =
  payload :: "event_payload option"
  analysis :: "stream_analysis option"
  warning_id :: string
  warning_type :: string
  is_ping :: bool

section \<open>lib/utils.ts\<close>

definition getWarningType :: "stream_message \<Rightarrow> string" where
  "getWarningType message = or_default (Some (warning_type message)) ''Unknown Warning''"

text \<open>
  \<^verbatim>\<open>new Date(timestamp).toLocaleString()\<close> depends on the locale of the browser: the
  conversion is the parameter \<open>toLocaleString\<close>.
\<close>

definition formatTimestamp :: "(string \<Rightarrow> string) \<Rightarrow> string \<Rightarrow> string" where
  "formatTimestamp toLocaleString timestamp = toLocaleString timestamp"

record repository_info =
  repository_name :: string
  repository_url :: string

text \<open>Reading \<^verbatim>\<open>message.payload.repo\<close> of a message without payload throws a TypeError.\<close>

definition getRepositoryInfo :: "stream_message \<Rightarrow> js_error + repository_info" where
  "getRepositoryInfo message =
     (case payload message of
        None \<Rightarrow> Inl TypeError
      | Some p \<Rightarrow>
          (let repoName = or_default (map_option repo_name (payload_repo p)) ''Unknown Repository'';
               repoUrl = or_default (map_option repo_url (payload_repo p)) ''#''
           in Inr \<lparr>repository_name = or_default (pop (split_on CHR ''/'' repoName)) repoName,
                   repository_url = replace_first ''api.github.com/repos'' ''github.com'' repoUrl\<rparr>))"

record actor_info =
  info_name :: string
  info_username :: string
  info_avatarUrl :: string
  info_profileUrl :: string

definition getActorInfo :: "stream_message \<Rightarrow> js_error + actor_info" where
  "getActorInfo message =
     (case payload message of
        None \<Rightarrow> Inl TypeError
      | Some p \<Rightarrow>
          (let actor = payload_actor p
           in Inr \<lparr>info_name =
                     or_default (Option.bind actor actor_display_login)
                       (or_default (map_option actor_login actor) ''Unknown User''),
                   info_username = or_default (map_option actor_login actor) ''unknown'',
                   info_avatarUrl = or_default (map_option actor_avatar_url actor) [],
                   info_profileUrl =
                     or_default
                       (map_option
                          (\<lambda>a. replace_first ''api.github.com/users'' ''github.com'' (actor_url a))
                          actor)
                       ''#''\<rparr>))"

section \<open>warning-card.tsx\<close>

record card_analysis =
  rootCause :: "string list"
  card_impact :: "string list"
  nextSteps :: "string list"

record WarningCardProps =
  card_id :: string
  warningType :: string
  repository :: repository_info
  actor :: actor_info
  timestamp :: string
  isProcessed :: bool
  card_analysis :: "card_analysis option"
  isViewed :: bool

text \<open>The \<^verbatim>\<open>switch\<close> compares the lower-cased type with each label in turn.\<close>

definition getWarningTypeColor :: "string \<Rightarrow> string" where
  "getWarningTypeColor type_name =
     (let t = toLowerCase type_name in
      if t = ''Push to default branch'' then ''bg-red-100 text-red-800 border-red-200''
      else if t = ''Large push to default branch'' then
        ''bg-orange-100 text-orange-800 border-orange-200''
      else if t = ''Default branch deleted'' then
        ''bg-yellow-100 text-yellow-800 border-yellow-200''
      else if t = ''Repository visibility changed to public'' then
        ''bg-blue-100 text-blue-800 border-blue-200''
      else if t = ''New collaborator added'' then ''bg-green-100 text-green-800 border-green-200''
      else ''bg-gray-100 text-gray-800 border-gray-200'')"

text \<open>
  What the card body shows: the spinner with "This warning is being processed...", the
  three analysis sections, or nothing (\<^verbatim>\<open>isProcessed\<close> with no analysis object).
  \<open>card_view\<close> holds what the card draws from its props: the badge, the link of the
  repository, the time, the picture and the link of the actor, the hover style and the
  body.
\<close>

datatype card_content =
    BeingProcessed
  | AnalysisSections "string list" "string list" "string list"
  | NoContent

definition CardContent :: "WarningCardProps \<Rightarrow> card_content" where
  "CardContent props =
     (if \<not> isProcessed props then BeingProcessed
      else (case card_analysis props of
              None \<Rightarrow> NoContent
            | Some a \<Rightarrow> AnalysisSections (rootCause a) (card_impact a) (nextSteps a)))"

record card_view =
  badge_class :: string
  badge_text :: string
  repository_link :: repository_info
  timestamp_text :: string
  avatar_src :: string
  actor_link :: actor_info
  hover_highlight :: bool
  card_body :: card_content

definition WarningCard :: "WarningCardProps \<Rightarrow> card_view" where
  "WarningCard props =
     \<lparr>badge_class = getWarningTypeColor (warningType props) @ '' font-medium'',
      badge_text = warningType props,
      repository_link = repository props,
      timestamp_text = timestamp props,
      avatar_src = or_default (Some (info_avatarUrl (actor props))) ''/placeholder.svg'',
      actor_link = actor props,
      hover_highlight = (\<not> isViewed props),
      card_body = CardContent props\<rparr>"

text \<open>
  The element \<^verbatim>\<open><WarningCard id=... isProcessed={!!message.analysis} .../>\<close> as
  feedbox.tsx (both tabs) and viewer.tsx build it from a message; \<open>viewed\<close> is
  \<^verbatim>\<open>isViewed\<close>, which only the viewer sets.
\<close>

definition message_props ::
  "(string \<Rightarrow> string) \<Rightarrow> bool \<Rightarrow> stream_message \<Rightarrow> js_error + WarningCardProps" where
  "message_props toLocaleString viewed message =
     (case getRepositoryInfo message of
        Inl e \<Rightarrow> Inl e
      | Inr repo_info \<Rightarrow>
          (case getActorInfo message of
             Inl e \<Rightarrow> Inl e
           | Inr act_info \<Rightarrow>
               (case payload message of
                  None \<Rightarrow> Inl TypeError
                | Some p \<Rightarrow>
                    Inr \<lparr>card_id = warning_id message,
                         warningType = getWarningType message,
                         repository = repo_info,
                         actor = act_info,
                         timestamp = formatTimestamp toLocaleString (payload_created_at p),
                         isProcessed = (analysis message \<noteq> None),
                         card_analysis =
                           (case analysis message of
                              None \<Rightarrow> None
                            | Some a \<Rightarrow>
                                Some \<lparr>rootCause = root_cause a, card_impact = impact a,
                                      nextSteps = next_steps a\<rparr>),
                         isViewed = viewed\<rparr>)))"

definition message_card ::
  "(string \<Rightarrow> string) \<Rightarrow> bool \<Rightarrow> stream_message \<Rightarrow> js_error + card_view" where
  "message_card toLocaleString viewed message =
     (case message_props toLocaleString viewed message of
        Inl e \<Rightarrow> Inl e
      | Inr props \<Rightarrow> Inr (WarningCard props))"

section \<open>viewer.tsx\<close>

definition Viewer :: "(string \<Rightarrow> string) \<Rightarrow> stream_message option \<Rightarrow> (js_error + card_view) option" where
  "Viewer toLocaleString currEvent = map_option (message_card toLocaleString True) currEvent"

section \<open>lib/supabase/client.ts\<close>

text \<open>
  A row of \<^verbatim>\<open>flagged_events\<close>, with the columns the front end reads (\<open>fe_id\<close> is the
  column \<^verbatim>\<open>id\<close>, and so on). A text column may be NULL.
\<close>

record flagged_event =
  fe_id :: string
  fe_type :: string
  fe_event_payload :: "event_payload option"
  fe_root_cause :: "string list"
  fe_impact :: "string list"
  fe_next_steps :: "string list"
  fe_has_been_processed :: bool
  fe_repo_name :: "string option"
  fe_org_name :: "string option"
  fe_actor_username :: "string option"

text \<open>
  The query is evaluated by the database service, not by code of the repository. Its
  filters are modelled as the service documents them. \<^verbatim>\<open>LIKE\<close>: in the pattern
  \<^verbatim>\<open>%\<close> stands for any sequence of characters, \<^verbatim>\<open>_\<close> for any one character, and
  a backslash takes the next character literally (a pattern ending in a lone backslash is
  an error of the service; \<open>getRelevantEvents\<close> never builds one, its pattern ends
  in \<^verbatim>\<open>%\<close>). \<^verbatim>\<open>ILIKE\<close> is \<^verbatim>\<open>LIKE\<close> without regard to case (here: of the
  ASCII letters).
\<close>

fun like_match :: "string \<Rightarrow> string \<Rightarrow> bool" where
  "like_match [] s = (s = [])"
| "like_match (p # ps) s =
     (if p = CHR ''%'' then
        like_match ps s \<or> (case s of [] \<Rightarrow> False | _ # t \<Rightarrow> like_match (p # ps) t)
      else if p = CHR ''_'' then (case s of [] \<Rightarrow> False | _ # t \<Rightarrow> like_match ps t)
      else if p = CHR 0x5C then
        (case ps of
           [] \<Rightarrow> False
         | e # ps' \<Rightarrow> (case s of [] \<Rightarrow> False | c # t \<Rightarrow> c = e \<and> like_match ps' t))
      else (case s of [] \<Rightarrow> False | c # t \<Rightarrow> c = p \<and> like_match ps t))"

definition ilike :: "string \<Rightarrow> string \<Rightarrow> bool" where
  "ilike pattern s = like_match (toLowerCase pattern) (toLowerCase s)"

text \<open>A filter on a NULL column is not true.\<close>

definition column_ilike :: "string option \<Rightarrow> string \<Rightarrow> bool" where
  "column_ilike col pattern = (case col of None \<Rightarrow> False | Some s \<Rightarrow> ilike pattern s)"

text \<open>The service reads \<^verbatim>\<open>*\<close> in the value of a like filter as \<^verbatim>\<open>%\<close>.\<close>

definition filter_pattern :: "string \<Rightarrow> string" where
  "filter_pattern v = map (\<lambda>c. if c = CHR ''*'' then CHR ''%'' else c) v"

text \<open>
  The argument of \<^verbatim>\<open>or\<close>, as the template literal builds it: the query is put into
  the text as it is.
\<close>

definition or_argument :: "string \<Rightarrow> string" where
  "or_argument query =
     ''repo_name.ilike.%'' @ query @ ''%, org_name.ilike.%'' @ query @
     ''%, actor_username.ilike.%'' @ query @ ''%''"

text \<open>
  The service splits that argument into its filters at commas and parentheses. A query
  without them leaves the three \<^verbatim>\<open>ilike\<close> filters, each with the pattern
  \<^verbatim>\<open>%query%\<close>. A query with a comma or a parenthesis changes the list itself; what
  the service makes of the changed list is not modelled.
\<close>

definition has_delimiter :: "string \<Rightarrow> bool" where
  "has_delimiter query = list_ex (\<lambda>c. c \<in> set '',()'') query"

text \<open>
  \<open>flagged_events\<close> is the table as the service holds it, \<open>None\<close> when the request fails
  (the client then returns \<^verbatim>\<open>data = null\<close>). \<open>or_filter\<close> is the service on a list
  that the query has changed: the test it applies to a row, or \<open>None\<close> when it refuses
  the list. It is a parameter, and nothing is assumed of it. The filter
  \<^verbatim>\<open>eq("has_been_processed", true)\<close> is a parameter of the request of its own and
  holds of every row returned, whatever the list.
\<close>

definition getRelevantEvents ::
  "(string \<Rightarrow> (flagged_event \<Rightarrow> bool) option) \<Rightarrow> flagged_event list option \<Rightarrow> string \<Rightarrow>
     flagged_event list option" where
  "getRelevantEvents or_filter flagged_events query =
     (let pattern = filter_pattern (''%'' @ query @ ''%'');
          reading =
            (if has_delimiter query then or_filter (or_argument query)
             else Some (\<lambda>row. column_ilike (fe_repo_name row) pattern \<or>
                              column_ilike (fe_org_name row) pattern \<or>
                              column_ilike (fe_actor_username row) pattern))
      in case reading of
           None \<Rightarrow> None
         | Some matches \<Rightarrow>
             map_option (filter (\<lambda>row. fe_has_been_processed row = True \<and> matches row))
               flagged_events)"



section \<open>feedbox.tsx\<close>

datatype tab = Feed | Search

record feedbox_state =
  messages :: "stream_message list"
  activeTab :: tab
  searchQuery :: string
  searchResults :: "stream_message list"
  isLoading :: bool

definition Feedbox_init :: feedbox_state where
  "Feedbox_init =
     \<lparr>messages = [], activeTab = Feed, searchQuery = [], searchResults = [], isLoading = False\<rparr>"

record message_event =
  data :: string

text \<open>
  \<^verbatim>\<open>eventSource.onmessage\<close>. \<open>JSON_parse\<close> is \<^verbatim>\<open>JSON.parse\<close> on the messages of the
  stream: \<open>None\<close> when the \<^verbatim>\<open>try\<close> block throws (the text is not JSON, or it is
  \<^verbatim>\<open>null\<close>, whose properties cannot be read), which the \<^verbatim>\<open>catch\<close> logs; otherwise
  the value, taken to be of the interface \<^verbatim>\<open>StreamMessage\<close>: \<^verbatim>\<open>is_ping\<close> is a
  boolean, so \<^verbatim>\<open>data.is_ping == false\<close> is \<open>is_ping d = False\<close>, and a payload that is
  there is an object, so \<^verbatim>\<open>data.payload\<close> is truthy exactly when it is there.
  \<^verbatim>\<open>slice(0, 20)\<close> is \<open>take 20\<close>.
\<close>

definition Feedbox_onmessage ::
  "(string \<Rightarrow> stream_message option) \<Rightarrow> message_event \<Rightarrow> feedbox_state \<Rightarrow> feedbox_state" where
  "Feedbox_onmessage JSON_parse event st =
     (case JSON_parse (data event) of
        None \<Rightarrow> st
      | Some d \<Rightarrow>
          if payload d \<noteq> None \<and> is_ping d = False
          then st\<lparr>messages := take 20 (d # messages st)\<rparr>
          else st)"

text \<open>The handler run on the events of the stream, in their order of arrival.\<close>

definition Feedbox_stream ::
  "(string \<Rightarrow> stream_message option) \<Rightarrow> message_event list \<Rightarrow> feedbox_state \<Rightarrow> feedbox_state" where
  "Feedbox_stream JSON_parse events st = foldl (\<lambda>s e. Feedbox_onmessage JSON_parse e s) st events"

text \<open>
  The message an event adds to the feed, if it adds one: the test of the handler, for
  stating properties of a whole stream.
\<close>

definition accepted ::
  "(string \<Rightarrow> stream_message option) \<Rightarrow> message_event \<Rightarrow> stream_message option" where
  "accepted JSON_parse event =
     (case JSON_parse (data event) of
        None \<Rightarrow> None
      | Some d \<Rightarrow> if payload d \<noteq> None \<and> is_ping d = False then Some d else None)"

text \<open>The object \<^verbatim>\<open>handleSearch\<close> builds from a row.\<close>

definition search_result :: "flagged_event \<Rightarrow> stream_message" where
  "search_result event =
     \<lparr>payload = fe_event_payload event,
      analysis = Some \<lparr>root_cause = fe_root_cause event, impact = fe_impact event,
                       next_steps = fe_next_steps event\<rparr>,
      warning_id = fe_id event,
      warning_type = fe_type event,
      is_ping = False\<rparr>"

text \<open>
  \<^verbatim>\<open>handleSearch\<close>, from the state when the query returns to the state it leaves
  (\<^verbatim>\<open>isLoading\<close> is set while it waits).
\<close>

definition handleSearch ::
  "(string \<Rightarrow> (flagged_event \<Rightarrow> bool) option) \<Rightarrow> flagged_event list option \<Rightarrow> string \<Rightarrow>
     feedbox_state \<Rightarrow> feedbox_state" where
  "handleSearch or_filter flagged_events query st =
     (let fetched = getRelevantEvents or_filter flagged_events query;
          newSearchResults = (case fetched of None \<Rightarrow> [] | Some rows \<Rightarrow> map search_result rows)
      in st\<lparr>searchResults := newSearchResults, isLoading := False\<rparr>)"

text \<open>The cards of the two tabs, in the order of the page.\<close>

definition Feedbox_feed :: "(string \<Rightarrow> string) \<Rightarrow> feedbox_state \<Rightarrow> (js_error + card_view) list" where
  "Feedbox_feed toLocaleString st = map (message_card toLocaleString False) (messages st)"

definition Feedbox_search :: "(string \<Rightarrow> string) \<Rightarrow> feedbox_state \<Rightarrow> (js_error + card_view) list" where
  "Feedbox_search toLocaleString st = map (message_card toLocaleString False) (searchResults st)"

section \<open>The raw stream page (the second page component, state \<^verbatim>\<open>string[]\<close>)\<close>

text \<open>It keeps the text of every event and shows each element of its state in a \<^verbatim>\<open>div\<close>.\<close>

definition Home_onmessage :: "message_event \<Rightarrow> string list \<Rightarrow> string list" where
  "Home_onmessage event prevMessages = data event # prevMessages"

section \<open>json-viewer.tsx\<close>

record json_line =
  number :: nat
  content :: string

text \<open>\<open>JSON_stringify v\<close> is \<^verbatim>\<open>JSON.stringify(v, null, 2)\<close>.\<close>

definition formatJsonWithLineNumbers :: "(js_value \<Rightarrow> string) \<Rightarrow> js_value \<Rightarrow> json_line list" where
  "formatJsonWithLineNumbers JSON_stringify obj =
     (if \<not> truthy obj then []
      else (let jsonString = JSON_stringify obj;
                lines = split_on (CHR 0x0A) jsonString
            in map (\<lambda>(index, line). \<lparr>number = index + 1, content = line\<rparr>) (enumerate 0 lines)))"

section \<open>Example data\<close>

text \<open>Concrete values at which the theorems below are instantiated.\<close>

abbreviation example_payload :: event_payload where
  "example_payload \<equiv>
     \<lparr>payload_id = ''1'', payload_type = ''PushEvent'',
      payload_actor = Some \<lparr>actor_id = 7, actor_login = ''octocat'', actor_display_login = None,
        actor_avatar_url = [], actor_url = ''https://api.github.com/users/octocat''\<rparr>,
      payload_repo = Some \<lparr>repo_id = 3, repo_name = ''octocat/hello'',
        repo_url = ''https://api.github.com/repos/octocat/hello''\<rparr>,
      payload_created_at = ''2025-01-01T00:00:00Z''\<rparr>"

abbreviation flagged_message :: stream_message where
  "flagged_message \<equiv>
     \<lparr>payload = Some example_payload, analysis = None, warning_id = ''w1'',
      warning_type = ''Push to default branch'', is_ping = False\<rparr>"

abbreviation analysed_message :: stream_message where
  "analysed_message \<equiv>
     \<lparr>payload = Some example_payload,
      analysis = Some \<lparr>root_cause = [''direct push''], impact = [''unreviewed code''],
        next_steps = [''protect the branch'']\<rparr>,
      warning_id = ''w1'', warning_type = ''Push to default branch'', is_ping = False\<rparr>"

abbreviation ping_message :: stream_message where
  "ping_message \<equiv>
     \<lparr>payload = None, analysis = None, warning_id = [], warning_type = [], is_ping = True\<rparr>"

abbreviation example_row :: flagged_event where
  "example_row \<equiv>
     \<lparr>fe_id = ''w1'', fe_type = ''Push to default branch'',
      fe_event_payload = Some example_payload,
      fe_root_cause = [''direct push''], fe_impact = [''unreviewed code''],
      fe_next_steps = [''protect the branch''], fe_has_been_processed = True,
      fe_repo_name = Some ''hello'', fe_org_name = None, fe_actor_username = Some ''octocat''\<rparr>"


abbreviation unslashed_message :: stream_message where
  "unslashed_message \<equiv>
     \<lparr>payload = Some \<lparr>payload_id = ''2'', payload_type = ''MemberEvent'', payload_actor = None,
        payload_repo = Some \<lparr>repo_id = 4, repo_name = ''hello'',
          repo_url = ''https://example.org/hello''\<rparr>,
        payload_created_at = ''2025-01-01T00:00:00Z''\<rparr>,
      analysis = None, warning_id = ''w2'', warning_type = ''New collaborator added'',
      is_ping = False\<rparr>"

abbreviation unnamed_message :: stream_message where
  "unnamed_message \<equiv>
     \<lparr>payload = Some \<lparr>payload_id = ''3'', payload_type = ''PushEvent'', payload_actor = None,
        payload_repo = Some \<lparr>repo_id = 5, repo_name = [], repo_url = []\<rparr>,
        payload_created_at = ''2025-01-01T00:00:00Z''\<rparr>,
      analysis = None, warning_id = ''w3'', warning_type = ''Push to default branch'',
      is_ping = False\<rparr>"

abbreviation repoless_message :: stream_message where
  "repoless_message \<equiv>
     \<lparr>payload = Some \<lparr>payload_id = ''4'', payload_type = ''PushEvent'', payload_actor = None,
        payload_repo = None, payload_created_at = ''2025-01-01T00:00:00Z''\<rparr>,
      analysis = None, warning_id = ''w4'', warning_type = ''Push to default branch'',
      is_ping = False\<rparr>"

abbreviation flagged_props :: WarningCardProps where
  "flagged_props \<equiv>
     \<lparr>card_id = ''w1'', warningType = ''Push to default branch'',
      repository = \<lparr>repository_name = ''hello'',
        repository_url = ''https://github.com/octocat/hello''\<rparr>,
      actor = \<lparr>info_name = ''octocat'', info_username = ''octocat'', info_avatarUrl = [],
        info_profileUrl = ''https://github.com/octocat''\<rparr>,
      timestamp = ''2025-01-01T00:00:00Z'', isProcessed = False, card_analysis = None,
      isViewed = False\<rparr>"

abbreviation analysed_props :: WarningCardProps where
  "analysed_props \<equiv>
     \<lparr>card_id = ''w1'', warningType = ''Push to default branch'',
      repository = \<lparr>repository_name = ''hello'',
        repository_url = ''https://github.com/octocat/hello''\<rparr>,
      actor = \<lparr>info_name = ''octocat'', info_username = ''octocat'', info_avatarUrl = [],
        info_profileUrl = ''https://github.com/octocat''\<rparr>,
      timestamp = ''2025-01-01T00:00:00Z'', isProcessed = True,
      card_analysis = Some \<lparr>rootCause = [''direct push''], card_impact = [''unreviewed code''],
        nextSteps = [''protect the branch'']\<rparr>,
      isViewed = True\<rparr>"

section \<open>Properties\<close>

subsection \<open>Strings\<close>

lemma toLower_char_not_upper: "of_char (toLower_char c) \<notin> {65..90::nat}"
  unfolding toLower_char_def Let_def by auto

lemma toLowerCase_neq_upper:
  "of_char c \<in> {65..90::nat} \<Longrightarrow> toLowerCase s \<noteq> c # cs"
proof
  assume up: "of_char c \<in> {65..90::nat}" and eq: "toLowerCase s = c # cs"
  then obtain x xs where "s = x # xs" and "toLower_char x = c"
    by (auto simp: toLowerCase_def)
  with up toLower_char_not_upper [of x] show False by simp
qed

lemma split_on_not_Nil: "split_on c s \<noteq> []"
  by (induction s) (auto split: list.splits)

lemma split_on_no_sep: "c \<notin> set s \<Longrightarrow> split_on c s = [s]"
  by (induction s) auto

lemma split_on_append: "split_on c (a @ c # b) = split_on c a @ split_on c b"
proof (induction a)
  case Nil
  show ?case by simp
next
  case (Cons x a)
  obtain w ws where w: "split_on c a = w # ws"
    using split_on_not_Nil [of c a] by (cases "split_on c a") auto
  with Cons show ?case by simp
qed

lemma pop_snoc: "pop (xs @ [x]) = Some x"
  by (simp add: pop_def)

lemma pop_append: "ys \<noteq> [] \<Longrightarrow> pop (xs @ ys) = pop ys"
  by (cases ys rule: rev_cases) (simp_all add: pop_def)

lemma pop_split_on_no_sep: "c \<notin> set s \<Longrightarrow> pop (split_on c s) = Some s"
  by (simp add: split_on_no_sep pop_def)

lemma pop_split_on_last: "c \<notin> set b \<Longrightarrow> pop (split_on c (a @ c # b)) = Some b"
  by (simp add: split_on_append pop_append split_on_not_Nil pop_split_on_no_sep)

lemma split_on_lines: "l \<in> set (split_on c s) \<Longrightarrow> c \<notin> set l"
proof (induction s arbitrary: l)
  case Nil
  then show ?case by simp
next
  case (Cons x s)
  obtain w ws where w: "split_on c s = w # ws"
    using split_on_not_Nil [of c s] by (cases "split_on c s") auto
  with Cons show ?case by (auto split: if_splits)
qed

lemma split_on_join: "concat (map ((#) c) (split_on c s)) = c # s"
proof (induction s)
  case Nil
  show ?case by simp
next
  case (Cons x s)
  obtain w ws where w: "split_on c s = w # ws"
    using split_on_not_Nil [of c s] by (cases "split_on c s") auto
  with Cons show ?case by auto
qed

lemma replace_first_absent: "\<not> sublist pat s \<Longrightarrow> replace_first pat rep s = s"
proof (induction s)
  case Nil
  then show ?case by auto
next
  case (Cons c cs)
  then have "\<not> prefix pat (c # cs)" and "\<not> sublist pat cs"
    by (auto simp: sublist_Cons_right)
  with Cons.IH show ?case by simp
qed

lemma replace_first_here: "pat \<noteq> [] \<Longrightarrow> replace_first pat rep (pat @ b) = rep @ b"
  by (cases pat) simp_all

lemma replace_first_earliest:
  "pat \<noteq> [] \<Longrightarrow> \<forall>a' b'. a @ pat @ b = a' @ pat @ b' \<longrightarrow> length a \<le> length a' \<Longrightarrow>
     replace_first pat rep (a @ pat @ b) = a @ rep @ b"
proof (induction a)
  case Nil
  then show ?case by (simp add: replace_first_here)
next
  case (Cons x a)
  have "\<not> prefix pat (x # a @ pat @ b)"
  proof
    assume "prefix pat (x # a @ pat @ b)"
    then obtain b' where "(x # a) @ pat @ b = [] @ pat @ b'"
      by (auto simp: prefix_def)
    with Cons.prems(2) have "length (x # a) \<le> length ([] :: string)"
      by blast
    then show False by simp
  qed
  moreover have "\<forall>a' b'. a @ pat @ b = a' @ pat @ b' \<longrightarrow> length a \<le> length a'"
  proof (intro allI impI)
    fix a' b'
    assume "a @ pat @ b = a' @ pat @ b'"
    then have "(x # a) @ pat @ b = (x # a') @ pat @ b'" by simp
    with Cons.prems(2) have "length (x # a) \<le> length (x # a')" by blast
    then show "length a \<le> length a'" by simp
  qed
  ultimately show ?case
    using Cons.IH [OF Cons.prems(1)] by simp
qed

lemma enumerate_nth: "i < length xs \<Longrightarrow> enumerate n xs ! i = (n + i, xs ! i)"
  by (simp add: nth_enumerate_eq)

subsection \<open>Patterns\<close>















lemma example_search:
  "getRelevantEvents Map.empty (Some [example_row]) ''hello'' = Some [example_row]"
  by code_simp





subsection \<open>The handler of the stream\<close>

lemma accepted_Some_iff:
  "accepted P e = Some d \<longleftrightarrow> P (data e) = Some d \<and> payload d \<noteq> None \<and> \<not> is_ping d"
  by (auto simp: accepted_def split: option.splits if_splits)

lemma onmessage_accepted:
  "accepted P e = Some d \<Longrightarrow>
     Feedbox_onmessage P e st = st\<lparr>messages := take 20 (d # messages st)\<rparr>"
  by (auto simp: accepted_def Feedbox_onmessage_def split: option.splits if_splits)

lemma onmessage_rejected: "accepted P e = None \<Longrightarrow> Feedbox_onmessage P e st = st"
  by (auto simp: accepted_def Feedbox_onmessage_def split: option.splits if_splits)

lemma onmessage_ping: "P (data e) = Some d \<Longrightarrow> is_ping d \<Longrightarrow> accepted P e = None"
  by (simp add: accepted_def)

lemma stream_Nil: "Feedbox_stream P [] st = st"
  by (simp add: Feedbox_stream_def)

lemma stream_Cons:
  "Feedbox_stream P (e # es) st = Feedbox_stream P es (Feedbox_onmessage P e st)"
  by (simp add: Feedbox_stream_def)

lemma take_append_take: "take n (xs @ take n ys) = take n (xs @ ys)"
  by simp

lemma stream_messages:
  "length (messages st) \<le> 20 \<Longrightarrow>
   messages (Feedbox_stream P events st) =
     take 20 (rev (List.map_filter (accepted P) events) @ messages st)"
proof (induction events arbitrary: st)
  case Nil
  then show ?case by (simp add: stream_Nil)
next
  case (Cons e es)
  show ?case
  proof (cases "accepted P e")
    case None
    with Cons show ?thesis
      by (simp add: stream_Cons onmessage_rejected)
  next
    case (Some d)
    have "messages (Feedbox_stream P (e # es) st) =
            take 20 (rev (List.map_filter (accepted P) es) @ take 20 (d # messages st))"
      using Cons.IH [of "st\<lparr>messages := take 20 (d # messages st)\<rparr>"] Some
      by (simp add: stream_Cons onmessage_accepted)
    also have "\<dots> = take 20 (rev (List.map_filter (accepted P) es) @ d # messages st)"
      by (rule take_append_take)
    finally show ?thesis using Some by simp
  qed
qed

lemma onmessage_length:
  "length (messages st) \<le> 20 \<Longrightarrow> length (messages (Feedbox_onmessage P e st)) \<le> 20"
  by (cases "accepted P e") (simp_all add: onmessage_accepted onmessage_rejected)

lemma stream_length:
  "length (messages st) \<le> 20 \<Longrightarrow> length (messages (Feedbox_stream P events st)) \<le> 20"
  by (induction events arbitrary: st) (simp_all add: stream_Nil stream_Cons onmessage_length)

lemma take_20_full: "length xs = 20 \<Longrightarrow> take 20 (d # xs) = d # butlast xs"
  by (simp add: take_Cons' butlast_conv_take)

lemma take_20_Cons: "take 20 (d # xs) = d # take 19 xs"
  by (simp add: take_Cons')

lemma onmessage_keeps:
  "\<forall>m\<in>set (messages st). Q m \<Longrightarrow> (\<And>d. accepted P e = Some d \<Longrightarrow> Q d) \<Longrightarrow>
     \<forall>m\<in>set (messages (Feedbox_onmessage P e st)). Q m"
proof (cases "accepted P e")
  case None
  assume "\<forall>m\<in>set (messages st). Q m"
  with None show ?thesis by (simp add: onmessage_rejected)
next
  case (Some d)
  assume all: "\<forall>m\<in>set (messages st). Q m" and new: "\<And>d. accepted P e = Some d \<Longrightarrow> Q d"
  have "set (take 20 (d # messages st)) \<subseteq> insert d (set (messages st))"
    using set_take_subset [of 20 "d # messages st"] by simp
  with all new [OF Some] Some show ?thesis
    by (auto simp: onmessage_accepted)
qed

lemma stream_keeps:
  "\<forall>m\<in>set (messages st). Q m \<Longrightarrow> (\<And>e d. accepted P e = Some d \<Longrightarrow> Q d) \<Longrightarrow>
     \<forall>m\<in>set (messages (Feedbox_stream P events st)). Q m"
proof (induction events arbitrary: st)
  case Nil
  then show ?case by (simp add: stream_Nil)
next
  case (Cons e es)
  have "\<forall>m\<in>set (messages (Feedbox_onmessage P e st)). Q m"
    using Cons.prems by (intro onmessage_keeps) auto
  then have "\<forall>m\<in>set (messages (Feedbox_stream P es (Feedbox_onmessage P e st))). Q m"
    using Cons.prems(2) by (rule Cons.IH)
  then show ?case by (simp only: stream_Cons)
qed

lemma message_props_Inr:
  "payload m = Some p \<Longrightarrow> \<exists>props. message_props f v m = Inr props"
  by (simp add: message_props_def getRepositoryInfo_def getActorInfo_def Let_def)

lemma message_card_Inr:
  "payload m = Some p \<Longrightarrow> \<exists>card. message_card f v m = Inr card"
  using message_props_Inr [of m p f v] by (auto simp: message_card_def)

subsection \<open>Cards\<close>

lemma message_props_fields:
  "message_props f v m = Inr props \<Longrightarrow>
     isProcessed props = (analysis m \<noteq> None) \<and>
     card_analysis props =
       map_option (\<lambda>a. \<lparr>rootCause = root_cause a, card_impact = impact a, nextSteps = next_steps a\<rparr>)
         (analysis m)"
  by (auto simp: message_props_def getRepositoryInfo_def getActorInfo_def Let_def
      split: option.splits)

lemma handleSearch_searchResults:
  "searchResults (handleSearch service db q st) =
     (case getRelevantEvents service db q of None \<Rightarrow> [] | Some rows \<Rightarrow> map search_result rows)"
  by (simp add: handleSearch_def Let_def)

lemma getRepositoryInfo_repo:
  "payload message = Some p \<Longrightarrow> payload_repo p = Some r \<Longrightarrow>
     getRepositoryInfo message =
       Inr \<lparr>repository_name =
              or_default
                (pop (split_on CHR ''/'' (or_default (Some (repo_name r)) ''Unknown Repository'')))
                (or_default (Some (repo_name r)) ''Unknown Repository''),
            repository_url =
              replace_first ''api.github.com/repos'' ''github.com''
                (or_default (Some (repo_url r)) ''#'')\<rparr>"
  by (simp add: getRepositoryInfo_def Let_def)

lemma getRepositoryInfo_no_repo:
  "payload message = Some p \<Longrightarrow> payload_repo p = None \<Longrightarrow>
     getRepositoryInfo message =
       Inr \<lparr>repository_name = ''Unknown Repository'', repository_url = ''#''\<rparr>"
  by (simp add: getRepositoryInfo_def Let_def or_default_def pop_def)

lemma formatJson_truthy:
  "truthy obj \<Longrightarrow>
     formatJsonWithLineNumbers S obj =
       map (\<lambda>(index, line). \<lparr>number = index + 1, content = line\<rparr>)
         (enumerate 0 (split_on (CHR 0x0A) (S obj)))"
  by (simp add: formatJsonWithLineNumbers_def Let_def)

subsection \<open>Pings\<close>

text \<open>
  The raw stream page keeps the text of a ping like that of any other event: with a
  ping on the wire, its text is in the list the page shows. So not every component that
  subscribes to the stream filters pings.
\<close>

theorem Home_shows_ping:
  \<open>[''{"is_ping": true}'' \<mapsto> ping_message] (data \<lparr>data = ''{"is_ping": true}''\<rparr>) = Some ping_message \<and>
   is_ping ping_message = True \<and>
   Home_onmessage \<lparr>data = ''{"is_ping": true}''\<rparr> [] = [''{"is_ping": true}'']\<close>
  by (simp add: Home_onmessage_def)

text \<open>
  C1, as amended. The Feedbox adds a received message to its feed only if it is not a
  ping: a message with \<^verbatim>\<open>is_ping = true\<close> leaves the state as it was; a message that
  is not a ping and carries a payload becomes the first entry of the feed and is rendered
  as a card; and no list reached from the initial state holds a ping or a message without
  payload. The raw stream page applies no filter: it prepends the text of every event.
\<close>

theorem Feedbox_filters_pings:
  "(JSON_parse (data e) = Some d \<and> is_ping d = True \<longrightarrow>
      Feedbox_onmessage JSON_parse e st = st) \<and>
   (JSON_parse (data e) = Some d \<and> is_ping d = False \<and> payload d \<noteq> None \<longrightarrow>
      messages (Feedbox_onmessage JSON_parse e st) = take 20 (d # messages st) \<and>
      (\<exists>card. Feedbox_feed toLocaleString (Feedbox_onmessage JSON_parse e st) =
         Inr card # map (message_card toLocaleString False) (take 19 (messages st)))) \<and>
   (\<forall>m\<in>set (messages (Feedbox_stream JSON_parse events Feedbox_init)).
      is_ping m = False \<and> payload m \<noteq> None) \<and>
   Home_onmessage e prevMessages = data e # prevMessages"
proof (intro conjI impI)
  assume "JSON_parse (data e) = Some d \<and> is_ping d = True"
  then have "accepted JSON_parse e = None"
    by (simp add: onmessage_ping)
  then show "Feedbox_onmessage JSON_parse e st = st"
    by (rule onmessage_rejected)
next
  assume a: "JSON_parse (data e) = Some d \<and> is_ping d = False \<and> payload d \<noteq> None"
  then have acc: "accepted JSON_parse e = Some d"
    by (simp add: accepted_Some_iff)
  show step: "messages (Feedbox_onmessage JSON_parse e st) = take 20 (d # messages st)"
    by (simp only: onmessage_accepted [OF acc]) simp
  from a obtain p where "payload d = Some p" by auto
  then obtain card where "message_card toLocaleString False d = Inr card"
    using message_card_Inr by blast
  then have "Feedbox_feed toLocaleString (Feedbox_onmessage JSON_parse e st) =
      Inr card # map (message_card toLocaleString False) (take 19 (messages st))"
    by (simp only: Feedbox_feed_def step take_20_Cons list.map)
  then show "\<exists>card. Feedbox_feed toLocaleString (Feedbox_onmessage JSON_parse e st) =
      Inr card # map (message_card toLocaleString False) (take 19 (messages st))" ..
next
  have "\<forall>m\<in>set (messages Feedbox_init). is_ping m = False \<and> payload m \<noteq> None"
    by (simp add: Feedbox_init_def)
  then show "\<forall>m\<in>set (messages (Feedbox_stream JSON_parse events Feedbox_init)).
      is_ping m = False \<and> payload m \<noteq> None"
    by (rule stream_keeps) (simp add: accepted_Some_iff)
next
  show "Home_onmessage e prevMessages = data e # prevMessages"
    by (simp add: Home_onmessage_def)
qed

theorem Feedbox_filters_pings_witness:
  "Feedbox_onmessage [''p'' \<mapsto> ping_message, ''a'' \<mapsto> flagged_message] \<lparr>data = ''p''\<rparr>
      Feedbox_init = Feedbox_init \<and>
   messages (Feedbox_onmessage [''p'' \<mapsto> ping_message, ''a'' \<mapsto> flagged_message]
      \<lparr>data = ''a''\<rparr> Feedbox_init) = [flagged_message] \<and>
   messages (Feedbox_stream [''p'' \<mapsto> ping_message, ''a'' \<mapsto> flagged_message]
      [\<lparr>data = ''p''\<rparr>, \<lparr>data = ''a''\<rparr>, \<lparr>data = ''p''\<rparr>] Feedbox_init) = [flagged_message] \<and>
   is_ping flagged_message = False \<and>
   Home_onmessage \<lparr>data = ''p''\<rparr> [] = [''p'']"
  using Feedbox_filters_pings [where
      JSON_parse = "[''p'' \<mapsto> ping_message, ''a'' \<mapsto> flagged_message]"
      and e = "\<lparr>data = ''p''\<rparr>" and d = ping_message and st = Feedbox_init
      and events = "[\<lparr>data = ''p''\<rparr>, \<lparr>data = ''a''\<rparr>, \<lparr>data = ''p''\<rparr>]"
      and prevMessages = "[]"]
    Feedbox_filters_pings [where
      JSON_parse = "[''p'' \<mapsto> ping_message, ''a'' \<mapsto> flagged_message]"
      and e = "\<lparr>data = ''a''\<rparr>" and d = flagged_message and st = Feedbox_init]
  by (simp add: Feedbox_init_def Feedbox_stream_def Feedbox_onmessage_def)

subsection \<open>Search\<close>




text \<open>
  C4. \<open>handleSearch\<close> turns the rows the query returns into messages of the type of
  the stream, one per row and in their order: \<^verbatim>\<open>warning_id\<close>, \<^verbatim>\<open>warning_type\<close> and
  \<^verbatim>\<open>payload\<close> are the row's \<^verbatim>\<open>id\<close>, \<^verbatim>\<open>type\<close> and \<^verbatim>\<open>event_payload\<close>,
  \<^verbatim>\<open>is_ping\<close> is false, and \<^verbatim>\<open>analysis\<close> is always present, holding the row's
  \<^verbatim>\<open>root_cause\<close>, \<^verbatim>\<open>impact\<close> and \<^verbatim>\<open>next_steps\<close>. A failed query gives no
  results.
\<close>

theorem handleSearch_results:
  "(getRelevantEvents or_filter flagged_events query = None \<longrightarrow>
      searchResults (handleSearch or_filter flagged_events query st) = []) \<and>
   (getRelevantEvents or_filter flagged_events query = Some rows \<longrightarrow>
      length (searchResults (handleSearch or_filter flagged_events query st)) = length rows \<and>
      (\<forall>i<length rows.
         warning_id (searchResults (handleSearch or_filter flagged_events query st) ! i) = fe_id (rows ! i) \<and>
         warning_type (searchResults (handleSearch or_filter flagged_events query st) ! i) =
           fe_type (rows ! i) \<and>
         payload (searchResults (handleSearch or_filter flagged_events query st) ! i) =
           fe_event_payload (rows ! i) \<and>
         analysis (searchResults (handleSearch or_filter flagged_events query st) ! i) =
           Some \<lparr>root_cause = fe_root_cause (rows ! i), impact = fe_impact (rows ! i),
                 next_steps = fe_next_steps (rows ! i)\<rparr> \<and>
         is_ping (searchResults (handleSearch or_filter flagged_events query st) ! i) = False)) \<and>
   isLoading (handleSearch or_filter flagged_events query st) = False \<and>
   messages (handleSearch or_filter flagged_events query st) = messages st"
proof (intro conjI impI allI)
  assume "getRelevantEvents or_filter flagged_events query = None"
  then show "searchResults (handleSearch or_filter flagged_events query st) = []"
    by (simp add: handleSearch_searchResults)
next
  assume r: "getRelevantEvents or_filter flagged_events query = Some rows"
  then show "length (searchResults (handleSearch or_filter flagged_events query st)) = length rows"
    by (simp add: handleSearch_searchResults)
  fix i
  assume "i < length rows"
  with r have at: "searchResults (handleSearch or_filter flagged_events query st) ! i =
      search_result (rows ! i)"
    by (simp add: handleSearch_searchResults)
  show "warning_id (searchResults (handleSearch or_filter flagged_events query st) ! i) = fe_id (rows ! i)"
    and "warning_type (searchResults (handleSearch or_filter flagged_events query st) ! i) =
           fe_type (rows ! i)"
    and "payload (searchResults (handleSearch or_filter flagged_events query st) ! i) =
           fe_event_payload (rows ! i)"
    and "analysis (searchResults (handleSearch or_filter flagged_events query st) ! i) =
           Some \<lparr>root_cause = fe_root_cause (rows ! i), impact = fe_impact (rows ! i),
                 next_steps = fe_next_steps (rows ! i)\<rparr>"
    and "is_ping (searchResults (handleSearch or_filter flagged_events query st) ! i) = False"
    by (simp_all add: at search_result_def)
next
  show "isLoading (handleSearch or_filter flagged_events query st) = False"
    by (simp add: handleSearch_def Let_def)
  show "messages (handleSearch or_filter flagged_events query st) = messages st"
    by (simp add: handleSearch_def Let_def)
qed

theorem handleSearch_results_witness:
  "getRelevantEvents Map.empty (Some [example_row]) ''hello'' = Some [example_row] \<and>
   length (searchResults (handleSearch Map.empty (Some [example_row]) ''hello'' Feedbox_init)) = 1 \<and>
   analysis (searchResults (handleSearch Map.empty (Some [example_row]) ''hello'' Feedbox_init) ! 0) =
     Some \<lparr>root_cause = [''direct push''], impact = [''unreviewed code''],
           next_steps = [''protect the branch'']\<rparr> \<and>
   is_ping (searchResults (handleSearch Map.empty (Some [example_row]) ''hello'' Feedbox_init) ! 0) = False \<and>
   searchResults (handleSearch Map.empty None ''hello'' Feedbox_init) = []"
  using handleSearch_results [where or_filter = Map.empty
      and flagged_events = "Some [example_row]" and query = "''hello''"
      and rows = "[example_row]" and st = Feedbox_init]
    handleSearch_results [where or_filter = Map.empty and flagged_events = None
      and query = "''hello''"
      and st = Feedbox_init] example_search
  by (simp add: getRelevantEvents_def has_delimiter_def)

subsection \<open>The body of the card\<close>

text \<open>
  C5. For a message that is displayed (in the feed, in the search results or in the
  viewer), \<^verbatim>\<open>isProcessed\<close> holds exactly when the message has an analysis object; the
  card shows the "being processed" placeholder exactly when it has none, and the three
  analysis sections, with the lists of the message, exactly when it has one.
\<close>

theorem card_processing_iff_no_analysis:
  "(message_props toLocaleString viewed message = Inr props \<longrightarrow>
      (isProcessed props \<longleftrightarrow> analysis message \<noteq> None) \<and>
      (CardContent props = BeingProcessed \<longleftrightarrow> analysis message = None) \<and>
      ((\<exists>rc im ns. CardContent props = AnalysisSections rc im ns) \<longleftrightarrow>
         analysis message \<noteq> None) \<and>
      (\<forall>a. analysis message = Some a \<longrightarrow>
         CardContent props = AnalysisSections (root_cause a) (impact a) (next_steps a)) \<and>
      message_card toLocaleString viewed message = Inr (WarningCard props) \<and>
      card_body (WarningCard props) = CardContent props) \<and>
   Viewer toLocaleString (Some message) = Some (message_card toLocaleString True message) \<and>
   Feedbox_feed toLocaleString st = map (message_card toLocaleString False) (messages st) \<and>
   Feedbox_search toLocaleString st =
     map (message_card toLocaleString False) (searchResults st)"
proof (intro conjI impI)
  assume p: "message_props toLocaleString viewed message = Inr props"
  note f = message_props_fields [OF p]
  show "isProcessed props \<longleftrightarrow> analysis message \<noteq> None"
    using f by simp
  show "CardContent props = BeingProcessed \<longleftrightarrow> analysis message = None"
    using f by (cases "analysis message") (simp_all add: CardContent_def)
  show "(\<exists>rc im ns. CardContent props = AnalysisSections rc im ns) \<longleftrightarrow>
         analysis message \<noteq> None"
    using f by (cases "analysis message") (simp_all add: CardContent_def)
  show "\<forall>a. analysis message = Some a \<longrightarrow>
         CardContent props = AnalysisSections (root_cause a) (impact a) (next_steps a)"
    using f by (simp add: CardContent_def)
  show "message_card toLocaleString viewed message = Inr (WarningCard props)"
    using p by (simp add: message_card_def)
  show "card_body (WarningCard props) = CardContent props"
    by (simp add: WarningCard_def)
next
  show "Viewer toLocaleString (Some message) = Some (message_card toLocaleString True message)"
    by (simp add: Viewer_def)
  show "Feedbox_feed toLocaleString st = map (message_card toLocaleString False) (messages st)"
    by (simp add: Feedbox_feed_def)
  show "Feedbox_search toLocaleString st =
     map (message_card toLocaleString False) (searchResults st)"
    by (simp add: Feedbox_search_def)
qed

theorem card_processing_iff_no_analysis_witness:
  "message_props (\<lambda>t. t) False flagged_message = Inr flagged_props \<and>
   CardContent flagged_props = BeingProcessed \<and>
   message_props (\<lambda>t. t) True analysed_message = Inr analysed_props \<and>
   CardContent analysed_props =
     AnalysisSections [''direct push''] [''unreviewed code''] [''protect the branch'']"
  using card_processing_iff_no_analysis [where toLocaleString = "\<lambda>t. t" and viewed = False
      and message = flagged_message and props = flagged_props]
    card_processing_iff_no_analysis [where toLocaleString = "\<lambda>t. t" and viewed = True
      and message = analysed_message and props = analysed_props]
  by (simp add: message_props_def getRepositoryInfo_def getActorInfo_def getWarningType_def
      formatTimestamp_def or_default_def pop_def)

subsection \<open>The same warning twice\<close>

text \<open>
  A notification with the analysis of a warning that the feed already shows as being
  processed: the feed then holds two entries with that warning id, the older one still
  without analysis.
\<close>

theorem Feedbox_duplicates_warning_id:
  "messages (Feedbox_onmessage [''b'' \<mapsto> analysed_message] \<lparr>data = ''b''\<rparr>
      (Feedbox_init\<lparr>messages := [flagged_message]\<rparr>)) = [analysed_message, flagged_message] \<and>
   warning_id analysed_message = warning_id flagged_message"
  by (simp add: Feedbox_onmessage_def Feedbox_init_def)

text \<open>
  C6, as amended. The Feedbox does not reconcile by warning id. When an accepted
  notification carries the warning id of an entry of the feed, the notification becomes
  a new entry at position 0 and the existing entry stays as it was, one position further
  down (for an entry among the first 19; the feed grows by one entry up to its cap).
\<close>

theorem Feedbox_prepends_same_warning_id:
  "JSON_parse (data e) = Some d \<and> payload d \<noteq> None \<and> is_ping d = False \<and>
   i < length (messages st) \<and> i < 19 \<and> warning_id (messages st ! i) = warning_id d \<longrightarrow>
     messages (Feedbox_onmessage JSON_parse e st) ! 0 = d \<and>
     messages (Feedbox_onmessage JSON_parse e st) ! Suc i = messages st ! i \<and>
     length (messages (Feedbox_onmessage JSON_parse e st)) = min 20 (Suc (length (messages st)))"
proof (intro impI)
  assume a: "JSON_parse (data e) = Some d \<and> payload d \<noteq> None \<and> is_ping d = False \<and>
    i < length (messages st) \<and> i < 19 \<and> warning_id (messages st ! i) = warning_id d"
  then have acc: "accepted JSON_parse e = Some d"
    by (simp add: accepted_Some_iff)
  have step: "messages (Feedbox_onmessage JSON_parse e st) = d # take 19 (messages st)"
    by (simp only: onmessage_accepted [OF acc] take_20_Cons) simp
  from a have "take 19 (messages st) ! i = messages st ! i"
    by simp
  then show "messages (Feedbox_onmessage JSON_parse e st) ! 0 = d \<and>
     messages (Feedbox_onmessage JSON_parse e st) ! Suc i = messages st ! i \<and>
     length (messages (Feedbox_onmessage JSON_parse e st)) = min 20 (Suc (length (messages st)))"
    by (simp add: step min_def)
qed

theorem Feedbox_prepends_same_warning_id_witness:
  "messages (Feedbox_onmessage [''b'' \<mapsto> analysed_message] \<lparr>data = ''b''\<rparr>
      (Feedbox_init\<lparr>messages := [flagged_message]\<rparr>)) ! 0 = analysed_message \<and>
   messages (Feedbox_onmessage [''b'' \<mapsto> analysed_message] \<lparr>data = ''b''\<rparr>
      (Feedbox_init\<lparr>messages := [flagged_message]\<rparr>)) ! Suc 0 = flagged_message \<and>
   length (messages (Feedbox_onmessage [''b'' \<mapsto> analysed_message] \<lparr>data = ''b''\<rparr>
      (Feedbox_init\<lparr>messages := [flagged_message]\<rparr>))) = 2"
  using Feedbox_prepends_same_warning_id [where JSON_parse = "[''b'' \<mapsto> analysed_message]"
      and e = "\<lparr>data = ''b''\<rparr>" and d = analysed_message and i = 0
      and st = "Feedbox_init\<lparr>messages := [flagged_message]\<rparr>"]
  by simp

subsection \<open>The order of the feed\<close>

text \<open>
  C7. The Feedbox shows the accepted messages in their order of arrival, newest first:
  after any sequence of events the feed is the reversed sequence of the accepted
  messages, cut to 20; an accepted message is put at position 0 in front of the first 19
  entries of the old list, in their order; an event that is not accepted changes nothing;
  and the cards are drawn in the order of the list.
\<close>

theorem Feedbox_newest_first:
  "messages (Feedbox_stream JSON_parse events Feedbox_init) =
     take 20 (rev (List.map_filter (accepted JSON_parse) events)) \<and>
   (JSON_parse (data e) = Some d \<and> payload d \<noteq> None \<and> is_ping d = False \<longrightarrow>
      messages (Feedbox_onmessage JSON_parse e st) = d # take 19 (messages st)) \<and>
   (accepted JSON_parse e = None \<longrightarrow> Feedbox_onmessage JSON_parse e st = st) \<and>
   Feedbox_feed toLocaleString st = map (message_card toLocaleString False) (messages st)"
proof (intro conjI impI)
  show "messages (Feedbox_stream JSON_parse events Feedbox_init) =
          take 20 (rev (List.map_filter (accepted JSON_parse) events))"
    using stream_messages [of Feedbox_init JSON_parse events]
    by (simp add: Feedbox_init_def)
next
  assume "JSON_parse (data e) = Some d \<and> payload d \<noteq> None \<and> is_ping d = False"
  then have acc: "accepted JSON_parse e = Some d"
    by (simp add: accepted_Some_iff)
  show "messages (Feedbox_onmessage JSON_parse e st) = d # take 19 (messages st)"
    by (simp only: onmessage_accepted [OF acc] take_20_Cons) simp
next
  assume "accepted JSON_parse e = None"
  then show "Feedbox_onmessage JSON_parse e st = st"
    by (rule onmessage_rejected)
next
  show "Feedbox_feed toLocaleString st = map (message_card toLocaleString False) (messages st)"
    by (simp add: Feedbox_feed_def)
qed

theorem Feedbox_newest_first_witness:
  "messages (Feedbox_stream [''a'' \<mapsto> flagged_message, ''p'' \<mapsto> ping_message, ''b'' \<mapsto> analysed_message]
      [\<lparr>data = ''a''\<rparr>, \<lparr>data = ''p''\<rparr>, \<lparr>data = ''b''\<rparr>] Feedbox_init) =
     [analysed_message, flagged_message] \<and>
   messages (Feedbox_onmessage [''a'' \<mapsto> flagged_message, ''p'' \<mapsto> ping_message, ''b'' \<mapsto> analysed_message]
      \<lparr>data = ''b''\<rparr> (Feedbox_init\<lparr>messages := [flagged_message]\<rparr>)) =
     [analysed_message, flagged_message] \<and>
   Feedbox_onmessage [''a'' \<mapsto> flagged_message, ''p'' \<mapsto> ping_message, ''b'' \<mapsto> analysed_message]
      \<lparr>data = ''p''\<rparr> (Feedbox_init\<lparr>messages := [flagged_message]\<rparr>) =
     Feedbox_init\<lparr>messages := [flagged_message]\<rparr>"
  using Feedbox_newest_first [where
      JSON_parse = "[''a'' \<mapsto> flagged_message, ''p'' \<mapsto> ping_message, ''b'' \<mapsto> analysed_message]"
      and events = "[\<lparr>data = ''a''\<rparr>, \<lparr>data = ''p''\<rparr>, \<lparr>data = ''b''\<rparr>]"
      and e = "\<lparr>data = ''b''\<rparr>" and d = analysed_message
      and st = "Feedbox_init\<lparr>messages := [flagged_message]\<rparr>"]
    Feedbox_newest_first [where
      JSON_parse = "[''a'' \<mapsto> flagged_message, ''p'' \<mapsto> ping_message, ''b'' \<mapsto> analysed_message]"
      and e = "\<lparr>data = ''p''\<rparr>"
      and st = "Feedbox_init\<lparr>messages := [flagged_message]\<rparr>"]
  by (simp add: accepted_def)

subsection \<open>The cap of the feed\<close>

text \<open>
  C3. The list of messages of the Feedbox never holds more than 20 messages: whatever
  the events of the stream, the list reached from the initial state has at most 20
  entries, and the handler of the stream and the search keep the bound. On an accepted
  message the new list is the
  message followed by the old list, cut to its first 20 entries; when the old list is
  full, that is the message followed by the old list without its last (oldest) entry.
\<close>

theorem Feedbox_messages_capped:
  "length (messages (Feedbox_stream JSON_parse events Feedbox_init)) \<le> 20 \<and>
   (length (messages st) \<le> 20 \<longrightarrow>
      length (messages (Feedbox_onmessage JSON_parse e st)) \<le> 20 \<and>
      length (messages (handleSearch or_filter flagged_events query st)) \<le> 20) \<and>
   (JSON_parse (data e) = Some d \<and> payload d \<noteq> None \<and> is_ping d = False \<longrightarrow>
      messages (Feedbox_onmessage JSON_parse e st) = take 20 (d # messages st) \<and>
      (length (messages st) = 20 \<longrightarrow>
         messages (Feedbox_onmessage JSON_parse e st) = d # butlast (messages st)))"
proof (intro conjI impI)
  show "length (messages (Feedbox_stream JSON_parse events Feedbox_init)) \<le> 20"
    by (rule stream_length) (simp add: Feedbox_init_def)
next
  assume b: "length (messages st) \<le> 20"
  then show "length (messages (Feedbox_onmessage JSON_parse e st)) \<le> 20"
    by (rule onmessage_length)
  from b show "length (messages (handleSearch or_filter flagged_events query st)) \<le> 20"
    by (simp add: handleSearch_def Let_def)
next
  assume "JSON_parse (data e) = Some d \<and> payload d \<noteq> None \<and> is_ping d = False"
  then have acc: "accepted JSON_parse e = Some d"
    by (simp add: accepted_Some_iff)
  show step: "messages (Feedbox_onmessage JSON_parse e st) = take 20 (d # messages st)"
    by (simp only: onmessage_accepted [OF acc]) simp
  assume "length (messages st) = 20"
  then show "messages (Feedbox_onmessage JSON_parse e st) = d # butlast (messages st)"
    by (simp only: step take_20_full)
qed

theorem Feedbox_messages_capped_witness:
  "length (messages (Feedbox_stream [''m'' \<mapsto> analysed_message] [\<lparr>data = ''m''\<rparr>]
      Feedbox_init)) \<le> 20 \<and>
   messages (Feedbox_onmessage [''m'' \<mapsto> analysed_message] \<lparr>data = ''m''\<rparr>
      (Feedbox_init\<lparr>messages := replicate 20 flagged_message\<rparr>)) =
     analysed_message # replicate 19 flagged_message"
  using Feedbox_messages_capped [where JSON_parse = "[''m'' \<mapsto> analysed_message]"
      and events = "[\<lparr>data = ''m''\<rparr>]" and e = "\<lparr>data = ''m''\<rparr>"
      and d = analysed_message
      and st = "Feedbox_init\<lparr>messages := replicate 20 flagged_message\<rparr>"]
  by (simp add: Feedbox_init_def)

subsection \<open>The colour of the badge\<close>

text \<open>
  C8. For every input string \<open>getWarningTypeColor\<close> returns the default style
  \<^verbatim>\<open>bg-gray-100 text-gray-800 border-gray-200\<close>: the input is lower-cased before the
  comparison, and each of the five labels contains an upper-case letter, so none is
  ever equal to it.
\<close>

theorem getWarningTypeColor_default:
  "getWarningTypeColor type_name = ''bg-gray-100 text-gray-800 border-gray-200''"
proof -
  have "toLowerCase type_name \<noteq> ''Push to default branch''"
    and "toLowerCase type_name \<noteq> ''Large push to default branch''"
    and "toLowerCase type_name \<noteq> ''Default branch deleted''"
    and "toLowerCase type_name \<noteq> ''Repository visibility changed to public''"
    and "toLowerCase type_name \<noteq> ''New collaborator added''"
    by (rule toLowerCase_neq_upper, simp)+
  then show ?thesis
    unfolding getWarningTypeColor_def Let_def by presburger
qed

theorem getWarningTypeColor_default_witness:
  "getWarningTypeColor ''Push to default branch'' = ''bg-gray-100 text-gray-800 border-gray-200''"
  using getWarningTypeColor_default [of "''Push to default branch''"] by simp

subsection \<open>The repository of a message\<close>

text \<open>
  A repository whose name and url are empty strings: the result is the default name and
  url, not the empty last segment and the empty url.
\<close>

theorem getRepositoryInfo_empty_name:
  "getRepositoryInfo unnamed_message =
     Inr \<lparr>repository_name = ''Unknown Repository'', repository_url = ''#''\<rparr> \<and>
   pop (split_on CHR ''/'' []) = Some [] \<and>
   replace_first ''api.github.com/repos'' ''github.com'' [] = []"
  by (simp add: getRepositoryInfo_def Let_def or_default_def pop_def)

text \<open>
  C9, as amended. For a message whose payload has no \<^verbatim>\<open>repo\<close>,
  \<open>getRepositoryInfo\<close> returns the name \<^verbatim>\<open>Unknown Repository\<close> and the url
  \<^verbatim>\<open>#\<close>. With a \<^verbatim>\<open>repo\<close> whose name is not empty, the name returned is the last
  segment of the name between slashes, or the whole name when that segment is empty; an
  empty name gives \<^verbatim>\<open>Unknown Repository\<close>. With a url that is not empty, the url
  returned is the url with the first occurrence of \<^verbatim>\<open>api.github.com/repos\<close> replaced
  by \<^verbatim>\<open>github.com\<close> (the url itself when there is none); an empty url gives
  \<^verbatim>\<open>#\<close>.
\<close>

theorem getRepositoryInfo_result:
  "payload message = Some p \<longrightarrow>
     (payload_repo p = None \<longrightarrow>
        getRepositoryInfo message =
          Inr \<lparr>repository_name = ''Unknown Repository'', repository_url = ''#''\<rparr>) \<and>
     (\<forall>r. payload_repo p = Some r \<longrightarrow>
        (\<exists>info. getRepositoryInfo message = Inr info \<and>
           (repo_name r \<noteq> [] \<and> CHR ''/'' \<notin> set (repo_name r) \<longrightarrow>
              repository_name info = repo_name r) \<and>
           (\<forall>a b. repo_name r = a @ CHR ''/'' # b \<and> CHR ''/'' \<notin> set b \<longrightarrow>
              repository_name info = (if b = [] then repo_name r else b)) \<and>
           (repo_name r = [] \<longrightarrow> repository_name info = ''Unknown Repository'') \<and>
           (repo_url r \<noteq> [] \<longrightarrow>
              repository_url info =
                replace_first ''api.github.com/repos'' ''github.com'' (repo_url r) \<and>
              (\<not> sublist ''api.github.com/repos'' (repo_url r) \<longrightarrow>
                 repository_url info = repo_url r) \<and>
              (\<forall>a b. repo_url r = a @ ''api.github.com/repos'' @ b \<and>
                 (\<forall>a' b'. repo_url r = a' @ ''api.github.com/repos'' @ b' \<longrightarrow>
                    length a \<le> length a') \<longrightarrow>
                 repository_url info = a @ ''github.com'' @ b)) \<and>
           (repo_url r = [] \<longrightarrow> repository_url info = ''#'')))"
proof (intro impI conjI allI)
  assume p: "payload message = Some p"
  {
    assume "payload_repo p = None"
    with p show "getRepositoryInfo message =
          Inr \<lparr>repository_name = ''Unknown Repository'', repository_url = ''#''\<rparr>"
      by (rule getRepositoryInfo_no_repo)
  }
  fix r
  assume r: "payload_repo p = Some r"
  define info where "info =
    \<lparr>repository_name =
              or_default
                (pop (split_on CHR ''/'' (or_default (Some (repo_name r)) ''Unknown Repository'')))
                (or_default (Some (repo_name r)) ''Unknown Repository''),
            repository_url =
              replace_first ''api.github.com/repos'' ''github.com''
                (or_default (Some (repo_url r)) ''#'')\<rparr>"
  have eq: "getRepositoryInfo message = Inr info"
    unfolding info_def using p r by (rule getRepositoryInfo_repo)
  have n1: "repository_name info = repo_name r"
    if "repo_name r \<noteq> [] \<and> CHR ''/'' \<notin> set (repo_name r)"
    using that by (simp add: info_def or_default_def pop_split_on_no_sep)
  have n2: "repository_name info = (if b = [] then repo_name r else b)"
    if "repo_name r = a @ CHR ''/'' # b \<and> CHR ''/'' \<notin> set b" for a b
    using that by (simp add: info_def or_default_def pop_split_on_last)
  have n3: "repository_name info = ''Unknown Repository''" if "repo_name r = []"
    using that by (simp add: info_def or_default_def pop_def)
  have u1: "repository_url info =
      replace_first ''api.github.com/repos'' ''github.com'' (repo_url r)"
    if "repo_url r \<noteq> []"
    using that by (simp add: info_def or_default_def)
  have u2: "repository_url info = repo_url r"
    if "repo_url r \<noteq> []" and "\<not> sublist ''api.github.com/repos'' (repo_url r)"
    using that u1 [OF that(1)] replace_first_absent [OF that(2)] by simp
  have u3: "repository_url info = a @ ''github.com'' @ b"
    if "repo_url r \<noteq> []" and "repo_url r = a @ ''api.github.com/repos'' @ b \<and>
       (\<forall>a' b'. repo_url r = a' @ ''api.github.com/repos'' @ b' \<longrightarrow> length a \<le> length a')"
    for a b
  proof -
    from that(2) have d: "repo_url r = a @ ''api.github.com/repos'' @ b"
      and m: "\<forall>a' b'. a @ ''api.github.com/repos'' @ b = a' @ ''api.github.com/repos'' @ b' \<longrightarrow>
        length a \<le> length a'"
      by simp_all
    have "replace_first ''api.github.com/repos'' ''github.com'' (a @ ''api.github.com/repos'' @ b) =
        a @ ''github.com'' @ b"
      by (rule replace_first_earliest [OF _ m]) simp
    then show ?thesis by (simp only: u1 [OF that(1)] d)
  qed
  have u4: "repository_url info = ''#''" if "repo_url r = []"
    using that by (simp add: info_def or_default_def)
  show "\<exists>info. getRepositoryInfo message = Inr info \<and>
           (repo_name r \<noteq> [] \<and> CHR ''/'' \<notin> set (repo_name r) \<longrightarrow>
              repository_name info = repo_name r) \<and>
           (\<forall>a b. repo_name r = a @ CHR ''/'' # b \<and> CHR ''/'' \<notin> set b \<longrightarrow>
              repository_name info = (if b = [] then repo_name r else b)) \<and>
           (repo_name r = [] \<longrightarrow> repository_name info = ''Unknown Repository'') \<and>
           (repo_url r \<noteq> [] \<longrightarrow>
              repository_url info =
                replace_first ''api.github.com/repos'' ''github.com'' (repo_url r) \<and>
              (\<not> sublist ''api.github.com/repos'' (repo_url r) \<longrightarrow>
                 repository_url info = repo_url r) \<and>
              (\<forall>a b. repo_url r = a @ ''api.github.com/repos'' @ b \<and>
                 (\<forall>a' b'. repo_url r = a' @ ''api.github.com/repos'' @ b' \<longrightarrow>
                    length a \<le> length a') \<longrightarrow>
                 repository_url info = a @ ''github.com'' @ b)) \<and>
           (repo_url r = [] \<longrightarrow> repository_url info = ''#'')"
    using eq n1 n2 n3 u1 u2 u3 u4 by blast
qed

theorem getRepositoryInfo_result_witness:
  "getRepositoryInfo flagged_message =
     Inr \<lparr>repository_name = ''hello'', repository_url = ''https://github.com/octocat/hello''\<rparr> \<and>
   getRepositoryInfo unslashed_message =
     Inr \<lparr>repository_name = ''hello'', repository_url = ''https://example.org/hello''\<rparr> \<and>
   getRepositoryInfo unnamed_message =
     Inr \<lparr>repository_name = ''Unknown Repository'', repository_url = ''#''\<rparr> \<and>
   getRepositoryInfo repoless_message =
     Inr \<lparr>repository_name = ''Unknown Repository'', repository_url = ''#''\<rparr>"
  using getRepositoryInfo_result [where message = flagged_message and p = example_payload]
    getRepositoryInfo_result [where message = unslashed_message
      and p = "\<lparr>payload_id = ''2'', payload_type = ''MemberEvent'', payload_actor = None,
        payload_repo = Some \<lparr>repo_id = 4, repo_name = ''hello'',
          repo_url = ''https://example.org/hello''\<rparr>,
        payload_created_at = ''2025-01-01T00:00:00Z''\<rparr>"]
    getRepositoryInfo_result [where message = unnamed_message
      and p = "\<lparr>payload_id = ''3'', payload_type = ''PushEvent'', payload_actor = None,
        payload_repo = Some \<lparr>repo_id = 5, repo_name = [], repo_url = []\<rparr>,
        payload_created_at = ''2025-01-01T00:00:00Z''\<rparr>"]
    getRepositoryInfo_result [where message = repoless_message
      and p = "\<lparr>payload_id = ''4'', payload_type = ''PushEvent'', payload_actor = None,
        payload_repo = None, payload_created_at = ''2025-01-01T00:00:00Z''\<rparr>"]
  by (simp add: getRepositoryInfo_def Let_def or_default_def pop_def)

subsection \<open>The lines of the JSON viewer\<close>

text \<open>
  C10. For a falsy value \<open>formatJsonWithLineNumbers\<close> returns the empty list. For any
  other value it returns one entry for each line of \<^verbatim>\<open>JSON.stringify(value, null, 2)\<close>,
  in order: entry \<open>i\<close> (from 0) has the number \<open>i + 1\<close> and the text of line \<open>i\<close>. The
  lines are the pieces of the text between its newlines: none contains a newline, and
  joined by newlines they are the text.
\<close>

theorem formatJsonWithLineNumbers_lines:
  "(\<not> truthy obj \<longrightarrow> formatJsonWithLineNumbers JSON_stringify obj = []) \<and>
   (truthy obj \<longrightarrow>
      length (formatJsonWithLineNumbers JSON_stringify obj) =
        length (split_on (CHR 0x0A) (JSON_stringify obj)) \<and>
      (\<forall>i<length (split_on (CHR 0x0A) (JSON_stringify obj)).
         number (formatJsonWithLineNumbers JSON_stringify obj ! i) = i + 1 \<and>
         content (formatJsonWithLineNumbers JSON_stringify obj ! i) =
           split_on (CHR 0x0A) (JSON_stringify obj) ! i) \<and>
      (\<forall>l\<in>set (split_on (CHR 0x0A) (JSON_stringify obj)). CHR 0x0A \<notin> set l) \<and>
      concat (map ((#) (CHR 0x0A)) (split_on (CHR 0x0A) (JSON_stringify obj))) =
        CHR 0x0A # JSON_stringify obj)"
proof (intro conjI impI allI ballI)
  assume "\<not> truthy obj"
  then show "formatJsonWithLineNumbers JSON_stringify obj = []"
    by (simp add: formatJsonWithLineNumbers_def)
next
  assume t: "truthy obj"
  show "length (formatJsonWithLineNumbers JSON_stringify obj) =
        length (split_on (CHR 0x0A) (JSON_stringify obj))"
    by (simp add: formatJson_truthy [OF t])
  show "concat (map ((#) (CHR 0x0A)) (split_on (CHR 0x0A) (JSON_stringify obj))) =
        CHR 0x0A # JSON_stringify obj"
    by (rule split_on_join)
  {
    fix l
    assume "l \<in> set (split_on (CHR 0x0A) (JSON_stringify obj))"
    then show "CHR 0x0A \<notin> set l" by (rule split_on_lines)
  }
  fix i
  assume i: "i < length (split_on (CHR 0x0A) (JSON_stringify obj))"
  then show "number (formatJsonWithLineNumbers JSON_stringify obj ! i) = i + 1"
    by (simp add: formatJson_truthy [OF t] enumerate_nth)
  from i show "content (formatJsonWithLineNumbers JSON_stringify obj ! i) =
           split_on (CHR 0x0A) (JSON_stringify obj) ! i"
    by (simp add: formatJson_truthy [OF t] enumerate_nth)
qed

theorem formatJsonWithLineNumbers_lines_witness:
  "formatJsonWithLineNumbers (\<lambda>v. [CHR ''{'', CHR 0x0A, CHR ''}'']) JNull = [] \<and>
   length (formatJsonWithLineNumbers (\<lambda>v. [CHR ''{'', CHR 0x0A, CHR ''}'']) (JObj [])) = 2 \<and>
   number (formatJsonWithLineNumbers (\<lambda>v. [CHR ''{'', CHR 0x0A, CHR ''}'']) (JObj []) ! 1) = 2 \<and>
   content (formatJsonWithLineNumbers (\<lambda>v. [CHR ''{'', CHR 0x0A, CHR ''}'']) (JObj []) ! 1) = ''}''"
  using formatJsonWithLineNumbers_lines [where JSON_stringify = "\<lambda>v. [CHR ''{'', CHR 0x0A, CHR ''}'']"
      and obj = JNull]
    formatJsonWithLineNumbers_lines [where JSON_stringify = "\<lambda>v. [CHR ''{'', CHR 0x0A, CHR ''}'']"
      and obj = "JObj []"]
  by simp

end
